theory Spec2Isabelle
  imports Main "HOL-Library.Word"
begin

section \<open>Data model\<close>

text \<open>
  The C types of \<^verbatim>\<open>src/src/base.c\<close>: \<^verbatim>\<open>int\<close> is a 32-bit two's complement word,
  \<^verbatim>\<open>size_t\<close> a 64-bit unsigned word, a byte is a \<open>char\<close>.
\<close>

type_synonym c_int = "32 word"
type_synonym size_t = "64 word"

definition NUL :: char where
  "NUL = CHR 0x00"

definition INT_MAX :: nat where
  "INT_MAX = 2147483647"

text \<open>
  The argument \<^verbatim>\<open>char *str\<close> is either the null pointer or points at the first byte of
  the caller's buffer. The bytes that are accessible from \<^verbatim>\<open>str\<close> are a separate
  \<open>char list\<close> (the storage of the buffer object); an access at an index beyond that list is
  out of bounds. A \<^verbatim>\<open>const char *\<close> result is either the argument \<^verbatim>\<open>str\<close> handed back,
  or one of the string literals of the program.
\<close>

datatype strptr = Null | Buf

datatype cstrptr = Arg strptr | Static string

text \<open>
  What a call can end in instead of returning: a failed \<^verbatim>\<open>assert\<close> (only when assertions
  are compiled in), or an access that C leaves undefined (through the null pointer, or
  outside the buffer's storage).
\<close>

datatype fault = AssertionFailed | NullDereference | OutOfBounds

text \<open>The variadic arguments that the conversions below consume.\<close>

datatype arg = ArgInt c_int | ArgStr string | ArgWide "nat list"

text \<open>The C string stored in a byte sequence: the bytes before the first terminator.\<close>

definition c_string :: "char list \<Rightarrow> string" where
  "c_string mem = takeWhile (\<lambda>c. c \<noteq> NUL) mem"

section \<open>The host's formatting engine\<close>

text \<open>
  \<^verbatim>\<open>vsnprintf\<close> belongs to the host's C library, so \<open>print_to_string\<close> below takes it as
  a parameter: a function from the pointer, the buffer's bytes, the capacity, the format and
  the arguments to a fault, or to the \<^verbatim>\<open>int\<close> it returns and the bytes it leaves.
\<close>

type_synonym engine =
  "strptr \<Rightarrow> char list \<Rightarrow> size_t \<Rightarrow> string option \<Rightarrow> arg list \<Rightarrow> fault + c_int \<times> char list"

text \<open>Decimal digits of a natural number and of an \<^verbatim>\<open>int\<close>, as \<^verbatim>\<open>%d\<close> prints them.\<close>

definition digit_char :: "nat \<Rightarrow> char" where
  "digit_char d = ''0123456789'' ! (d mod 10)"

fun dec_nat :: "nat \<Rightarrow> string" where
  "dec_nat n = (if n < 10 then [digit_char n] else dec_nat (n div 10) @ [digit_char (n mod 10)])"

declare dec_nat.simps [simp del]

definition dec_of_int :: "int \<Rightarrow> string" where
  "dec_of_int n = (if n < 0 then CHR ''-'' # dec_nat (nat (- n)) else dec_nat (nat n))"

definition dec_int :: "c_int \<Rightarrow> string" where
  "dec_int i = dec_of_int (sint i)"

text \<open>
  Modelled from the spec: the rendering of a format by the host's engine, which is not code
  of this repository. It covers ordinary characters and the conversions \<^verbatim>\<open>%%\<close>, \<^verbatim>\<open>%d\<close>,
  \<^verbatim>\<open>%s\<close> and \<^verbatim>\<open>%ls\<close>, with the meaning the C standard gives them. \<open>None\<close> is the
  engine's encoding/argument error: a wide character with no encoding in the \<^verbatim>\<open>C\<close> locale
  (one beyond 7 bits) under \<^verbatim>\<open>%ls\<close>, an argument of the wrong kind, or a conversion
  outside this fragment.
\<close>

fun render_c :: "string \<Rightarrow> arg list \<Rightarrow> string option" where
  "render_c [] ap = Some []"
| "render_c [c] ap = (if c = CHR ''%'' then None else Some [c])"
| "render_c (c # d # fmt) ap =
     (if c \<noteq> CHR ''%'' then map_option ((#) c) (render_c (d # fmt) ap)
      else if d = CHR ''%'' then map_option ((#) d) (render_c fmt ap)
      else if d = CHR ''d'' then
        (case ap of
           ArgInt i # ap' \<Rightarrow> map_option ((@) (dec_int i)) (render_c fmt ap')
         | _ \<Rightarrow> None)
      else if d = CHR ''s'' then
        (case ap of
           ArgStr s # ap' \<Rightarrow> map_option ((@) s) (render_c fmt ap')
         | _ \<Rightarrow> None)
      else if d = CHR ''l'' then
        (case fmt of
           e # fmt' \<Rightarrow>
             (if e = CHR ''s'' then
                (case ap of
                   ArgWide ws # ap' \<Rightarrow>
                     (if list_all (\<lambda>w. w < 128) ws
                      then map_option ((@) (map char_of ws)) (render_c fmt' ap')
                      else None)
                 | _ \<Rightarrow> None)
              else None)
         | [] \<Rightarrow> None)
      else None)"

text \<open>
  Modelled from the spec: the host's \<^verbatim>\<open>vsnprintf\<close>, which is not code of this repository,
  by the contract that the header comment of \<^verbatim>\<open>print_to_string\<close> and section 4.1 of the
  specification give for it, which is the one of the C standard. It writes at most
  \<open>len - 1\<close> characters of the rendered text and then a terminator, writes nothing when
  \<open>len\<close> is 0 (where a null \<open>str\<close> is allowed), and returns the length the whole text
  would have. It returns a negative value on an encoding error and when that length does not
  fit an \<^verbatim>\<open>int\<close>; this model leaves the buffer as it was in both cases.
\<close>

definition vsnprintf_std :: "(string \<Rightarrow> arg list \<Rightarrow> string option) \<Rightarrow> engine" where
  "vsnprintf_std render str mem len fmt ap =
     (case fmt of
        None \<Rightarrow> Inl NullDereference
      | Some f \<Rightarrow>
          (case render f ap of
             None \<Rightarrow> Inr (- 1, mem)
           | Some rtext \<Rightarrow>
               if INT_MAX < length rtext then Inr (- 1, mem)
               else if len = 0 then Inr (of_nat (length rtext), mem)
               else if str = Null then Inl NullDereference
               else
                 (let k = min (length rtext) (unat len - 1) in
                  if length mem \<le> k then Inl OutOfBounds
                  else Inr (of_nat (length rtext), take k rtext @ NUL # drop (Suc k) mem))))"

section \<open>print_to_string\<close>

text \<open>
  \<^verbatim>\<open>int print_to_string(char *str, size_t len, const char *fmt, ...)\<close>, lines 13 to 37 of
  \<^verbatim>\<open>src/src/base.c\<close>. \<open>ndebug\<close> says whether \<^verbatim>\<open>NDEBUG\<close> is defined, that is whether the
  three \<^verbatim>\<open>assert\<close>s are compiled out. The result is a fault, or the returned \<^verbatim>\<open>int\<close> with
  the bytes of the buffer after the call.
\<close>

definition print_to_string ::
  "bool \<Rightarrow> engine \<Rightarrow> strptr \<Rightarrow> char list \<Rightarrow> size_t \<Rightarrow> string option \<Rightarrow> arg list
     \<Rightarrow> fault + c_int \<times> char list" where
  "print_to_string ndebug vsnprintf str mem len fmt ap =
     (if \<not> ndebug \<and> str = Null then Inl AssertionFailed
      else if \<not> ndebug \<and> fmt = None then Inl AssertionFailed
      else
        (case vsnprintf str mem len fmt ap of
           Inl f \<Rightarrow> Inl f
         | Inr (num, mem1) \<Rightarrow>
             if num <s 0 then Inr (- 1, mem1)
             else if len \<le> scast num then
               (if str = Null then Inl NullDereference
                else if mem1 = [] then Inl OutOfBounds
                else Inr (- 1, mem1[0 := NUL]))
             else if ndebug then Inr (num, mem1)
             else if length mem1 \<le> unat num then Inl OutOfBounds
             else if mem1 ! unat num \<noteq> NUL then Inl AssertionFailed
             else Inr (num, mem1)))"

section \<open>strerror_r_improved\<close>

text \<open>
  The host's error-description call of the portability build is the XSI \<^verbatim>\<open>strerror_r\<close>,
  which returns an \<^verbatim>\<open>int\<close> status (0 for success) and fills the buffer. It belongs to
  the host's C library, so \<open>strerror_r_improved\<close> takes it as a parameter.
\<close>

type_synonym describer =
  "c_int \<Rightarrow> strptr \<Rightarrow> char list \<Rightarrow> size_t \<Rightarrow> fault + c_int \<times> char list"

definition EINVAL :: c_int where
  "EINVAL = 22"

definition ERANGE :: c_int where
  "ERANGE = 34"

text \<open>
  Modelled from the spec: the host's error-description facility, which is not code of this
  repository, as section 4.2 of the specification uses it and POSIX defines it: it succeeds
  with status 0 and
  stores the message of a code it knows when the message and its terminator fit the
  capacity, and fails with a non-zero status otherwise (\<^verbatim>\<open>EINVAL\<close> for a code it does not
  know, \<^verbatim>\<open>ERANGE\<close> for a buffer too small). \<open>table\<close> is the host's list of messages. This
  model leaves the buffer as it was when the call fails.
\<close>

definition strerror_r_xsi :: "(c_int \<Rightarrow> string option) \<Rightarrow> describer" where
  "strerror_r_xsi table err str mem len =
     (case table err of
        None \<Rightarrow> Inr (EINVAL, mem)
      | Some msg \<Rightarrow>
          if length msg < unat len then
            (if str = Null then Inl NullDereference
             else if length mem \<le> length msg then Inl OutOfBounds
             else Inr (0, msg @ NUL # drop (Suc (length msg)) mem))
          else Inr (ERANGE, mem))"

text \<open>
  \<^verbatim>\<open>const char *strerror_r_improved(int err, char *str, size_t len)\<close>, lines 44 to 51 of
  \<^verbatim>\<open>src/src/base.c\<close>: the variant that is compiled unless \<^verbatim>\<open>_GNU_SOURCE\<close> is defined
  on a platform other than Apple's (the other variant, lines 40 to 42, hands back whatever
  pointer the GNU \<^verbatim>\<open>strerror_r\<close> returns). The result is a fault, or the returned pointer
  with the bytes of the buffer after the call.
\<close>

definition strerror_r_improved ::
  "bool \<Rightarrow> describer \<Rightarrow> engine \<Rightarrow> c_int \<Rightarrow> strptr \<Rightarrow> char list \<Rightarrow> size_t
     \<Rightarrow> fault + cstrptr \<times> char list" where
  "strerror_r_improved ndebug strerror_r vsnprintf err str mem len =
     (let unknown = ''unknown error'' in
      case strerror_r err str mem len of
        Inl f \<Rightarrow> Inl f
      | Inr (rc, mem1) \<Rightarrow>
          (case (if rc \<noteq> 0
                 then print_to_string ndebug vsnprintf str mem1 len (Some ''%s %d'')
                        [ArgStr unknown, ArgInt err]
                 else Inr (rc, mem1)) of
             Inl f \<Rightarrow> Inl f
           | Inr (rc', mem2) \<Rightarrow>
               Inr (if 0 \<le>s rc' then Arg str else Static unknown, mem2)))"

text \<open>
  The string a returned pointer points to: the C string in the buffer for the caller's
  pointer, the literal itself for a string literal, nothing for the null pointer.
\<close>

fun string_at :: "cstrptr \<Rightarrow> char list \<Rightarrow> string option" where
  "string_at (Arg Null) mem = None"
| "string_at (Arg Buf) mem = Some (c_string mem)"
| "string_at (Static s) mem = Some s"

section \<open>humanized_timestamp\<close>

text \<open>
  \<^verbatim>\<open>time_t\<close> and the broken-down time \<^verbatim>\<open>struct tm\<close> of the host, with the fields the
  C standard gives it. \<^verbatim>\<open>tm_year\<close> counts from 1900, \<^verbatim>\<open>tm_mon\<close> from 0 (January) and
  \<^verbatim>\<open>tm_wday\<close> from 0 (Sunday).
\<close>

type_synonym time_t = "64 word"

record tm =
  tm_sec :: int
  tm_min :: int
  tm_hour :: int
  tm_mday :: int
  tm_mon :: int
  tm_year :: int
  tm_wday :: int
  tm_yday :: int
  tm_isdst :: int

text \<open>
  \<^verbatim>\<open>localtime_r\<close> (a null result is \<open>None\<close>) and \<^verbatim>\<open>strftime\<close> belong to the host's C
  library, so \<open>humanized_timestamp\<close> takes them as parameters, together with the value that
  \<^verbatim>\<open>time(NULL)\<close> returns.
\<close>

type_synonym converter = "time_t \<Rightarrow> tm option"

type_synonym formatter =
  "strptr \<Rightarrow> char list \<Rightarrow> size_t \<Rightarrow> string \<Rightarrow> tm \<Rightarrow> fault + size_t \<times> char list"

text \<open>\<^verbatim>\<open>strlen\<close>, which reads up to the first terminator.\<close>

definition strlen :: "strptr \<Rightarrow> char list \<Rightarrow> fault + size_t" where
  "strlen str mem =
     (if str = Null then Inl NullDereference
      else if NUL \<notin> set mem then Inl OutOfBounds
      else Inr (of_nat (length (c_string mem))))"

text \<open>
  \<^verbatim>\<open>const char *humanized_timestamp(char *str, size_t len)\<close>, lines 54 to 73 of
  \<^verbatim>\<open>src/src/base.c\<close>. \<open>clock\<close> is the value of \<^verbatim>\<open>time(NULL)\<close>.
\<close>

definition humanized_timestamp ::
  "bool \<Rightarrow> time_t \<Rightarrow> converter \<Rightarrow> formatter \<Rightarrow> strptr \<Rightarrow> char list \<Rightarrow> size_t
     \<Rightarrow> fault + cstrptr \<times> char list" where
  "humanized_timestamp ndebug clock localtime_r strftime str mem len =
     (let err = ''error''; t = clock in
      case localtime_r t of
        None \<Rightarrow> Inr (Static err, mem)
      | Some ptm \<Rightarrow>
          (case strftime str mem len ''%c'' ptm of
             Inl f \<Rightarrow> Inl f
           | Inr (bytes, mem1) \<Rightarrow>
               if 0 = bytes then Inr (Static err, mem1)
               else if ndebug then Inr (Arg str, mem1)
               else
                 (case strlen str mem1 of
                    Inl f \<Rightarrow> Inl f
                  | Inr n \<Rightarrow> if n = bytes then Inr (Arg str, mem1) else Inl AssertionFailed)))"

text \<open>
  Modelled from the spec: the host's \<^verbatim>\<open>strftime\<close>, which is not code of this repository.
  \<open>render\<close> gives the text of a format for a broken-down time under the current locale. When
  the text and its terminator fit the capacity they are stored and the length of the text is
  returned; otherwise 0 is returned (section 4.3 of the specification: rendering produces
  zero bytes) and the C standard leaves the contents of the buffer open: this model leaves
  the buffer as it was.
\<close>

definition strftime_std :: "(string \<Rightarrow> tm \<Rightarrow> string) \<Rightarrow> formatter" where
  "strftime_std render str mem len fmt ptm =
     (let rtext = render fmt ptm in
      if length rtext < unat len then
        (if str = Null then Inl NullDereference
         else if length mem \<le> length rtext then Inl OutOfBounds
         else Inr (of_nat (length rtext), rtext @ NUL # drop (Suc (length rtext)) mem))
      else Inr (0, mem))"

text \<open>
  Modelled from the spec: the date and time representation \<^verbatim>\<open>%c\<close> of the host in the
  \<^verbatim>\<open>C\<close> locale, which is not code of this repository: the layout
  \<^verbatim>\<open>Www Mmm dd hh:mm:ss yyyy\<close> of section 4.3 of the specification and of the example
  \<^verbatim>\<open>Mon Feb 17 13:22:05 2020\<close> in \<^verbatim>\<open>base.h\<close>, which the C standard fixes for this
  locale as \<^verbatim>\<open>%a %b %e %H:%M:%S %Y\<close>: the day of the month padded by a space, the clock
  fields padded by a zero and the year in full.
\<close>

definition wday_abbr :: "int \<Rightarrow> string" where
  "wday_abbr d =
     (if 0 \<le> d \<and> d \<le> 6
      then [''Sun'', ''Mon'', ''Tue'', ''Wed'', ''Thu'', ''Fri'', ''Sat''] ! nat d
      else ''?'')"

definition mon_abbr :: "int \<Rightarrow> string" where
  "mon_abbr m =
     (if 0 \<le> m \<and> m \<le> 11
      then [''Jan'', ''Feb'', ''Mar'', ''Apr'', ''May'', ''Jun'',
            ''Jul'', ''Aug'', ''Sep'', ''Oct'', ''Nov'', ''Dec''] ! nat m
      else ''?'')"

definition pad2 :: "char \<Rightarrow> int \<Rightarrow> string" where
  "pad2 fill n = (if 0 \<le> n \<and> n < 10 then [fill, digit_char (nat n)] else dec_of_int n)"

definition c_date_time :: "tm \<Rightarrow> string" where
  "c_date_time ptm =
     wday_abbr (tm_wday ptm) @ '' '' @ mon_abbr (tm_mon ptm) @ '' ''
       @ pad2 CHR '' '' (tm_mday ptm) @ '' ''
       @ pad2 CHR ''0'' (tm_hour ptm) @ '':'' @ pad2 CHR ''0'' (tm_min ptm) @ '':''
       @ pad2 CHR ''0'' (tm_sec ptm) @ '' '' @ dec_of_int (tm_year ptm + 1900)"

fun strftime_c_locale :: "string \<Rightarrow> tm \<Rightarrow> string" where
  "strftime_c_locale [] ptm = []"
| "strftime_c_locale [c] ptm = [c]"
| "strftime_c_locale (c # d # fmt) ptm =
     (if c \<noteq> CHR ''%'' then c # strftime_c_locale (d # fmt) ptm
      else if d = CHR ''c'' then c_date_time ptm @ strftime_c_locale fmt ptm
      else if d = CHR ''%'' then d # strftime_c_locale fmt ptm
      else strftime_c_locale fmt ptm)"

text \<open>The ranges the C standard gives the fields of a broken-down time.\<close>

definition valid_tm :: "tm \<Rightarrow> bool" where
  "valid_tm ptm \<longleftrightarrow>
     0 \<le> tm_sec ptm \<and> tm_sec ptm \<le> 60 \<and> 0 \<le> tm_min ptm \<and> tm_min ptm \<le> 59
     \<and> 0 \<le> tm_hour ptm \<and> tm_hour ptm \<le> 23 \<and> 1 \<le> tm_mday ptm \<and> tm_mday ptm \<le> 31
     \<and> 0 \<le> tm_mon ptm \<and> tm_mon ptm \<le> 11 \<and> 0 \<le> tm_wday ptm \<and> tm_wday ptm \<le> 6"

text \<open>
  The layout \<^verbatim>\<open>Www Mmm dd hh:mm:ss yyyy\<close> as a list of character classes, one for each
  position; the first position of the day may hold a space.
\<close>

datatype char_class = Upper | Lower | Digit | DigitOrSpace | Exactly char

fun in_class :: "char_class \<Rightarrow> char \<Rightarrow> bool" where
  "in_class Upper c = (c \<in> set ''ABCDEFGHIJKLMNOPQRSTUVWXYZ'')"
| "in_class Lower c = (c \<in> set ''abcdefghijklmnopqrstuvwxyz'')"
| "in_class Digit c = (c \<in> set ''0123456789'')"
| "in_class DigitOrSpace c = (c \<in> set '' 0123456789'')"
| "in_class (Exactly e) c = (c = e)"

definition timestamp_layout :: "char_class list" where
  "timestamp_layout =
     [Upper, Lower, Lower, Exactly CHR '' '', Upper, Lower, Lower, Exactly CHR '' '',
      DigitOrSpace, Digit, Exactly CHR '' '',
      Digit, Digit, Exactly CHR '':'', Digit, Digit, Exactly CHR '':'', Digit, Digit,
      Exactly CHR '' '', Digit, Digit, Digit, Digit]"

definition matches_layout :: "char_class list \<Rightarrow> string \<Rightarrow> bool" where
  "matches_layout layout s = list_all2 in_class layout s"

text \<open>
  Two broken-down times: the example of \<^verbatim>\<open>base.h\<close>, Monday 17 February 2020, 13:22:05,
  and Saturday 1 January 10000, 00:00:00.
\<close>

definition feb_17_2020 :: tm where
  "feb_17_2020 =
     \<lparr>tm_sec = 5, tm_min = 22, tm_hour = 13, tm_mday = 17, tm_mon = 1, tm_year = 120,
      tm_wday = 1, tm_yday = 47, tm_isdst = 0\<rparr>"

definition jan_1_10000 :: tm where
  "jan_1_10000 =
     \<lparr>tm_sec = 0, tm_min = 0, tm_hour = 0, tm_mday = 1, tm_mon = 0, tm_year = 8100,
      tm_wday = 6, tm_yday = 0, tm_isdst = 0\<rparr>"

text \<open>
  Modelled from the spec: a host locale whose \<^verbatim>\<open>%c\<close> is not the one of the \<^verbatim>\<open>C\<close>
  locale (section 4.3 of the specification: the representation is the host's default one
  and depends on the locale), which is not code of this repository. It follows the
  \<^verbatim>\<open>en_GB\<close> locale of the GNU C library, \<^verbatim>\<open>%a %d %b %Y %T %Z\<close>: the day before the
  month, the year before the time, and the abbreviation of the time zone at the end, as in
  \<^verbatim>\<open>Mon 17 Feb 2020 13:22:05 GMT\<close>.
\<close>

definition long_date_time :: "string \<Rightarrow> tm \<Rightarrow> string" where
  "long_date_time zone ptm =
     wday_abbr (tm_wday ptm) @ '' '' @ pad2 CHR ''0'' (tm_mday ptm) @ '' ''
       @ mon_abbr (tm_mon ptm) @ '' '' @ dec_of_int (tm_year ptm + 1900) @ '' ''
       @ pad2 CHR ''0'' (tm_hour ptm) @ '':'' @ pad2 CHR ''0'' (tm_min ptm) @ '':''
       @ pad2 CHR ''0'' (tm_sec ptm) @ '' '' @ zone"

definition strftime_long_locale :: "string \<Rightarrow> string \<Rightarrow> tm \<Rightarrow> string" where
  "strftime_long_locale zone fmt ptm =
     (if fmt = ''%c'' then long_date_time zone ptm else strftime_c_locale fmt ptm)"

text \<open>
  Two local-time conversions, one that yields a given broken-down time and one that fails,
  and three message lists of the host: an empty one, one that knows \<^verbatim>\<open>ENOENT\<close>, and one
  whose message for the code 0 is the empty string.
\<close>

definition local_time_is :: "tm \<Rightarrow> converter" where
  "local_time_is ptm t = Some ptm"

definition local_time_fails :: converter where
  "local_time_fails t = None"

definition no_messages :: "c_int \<Rightarrow> string option" where
  "no_messages e = None"

definition enoent_message :: "c_int \<Rightarrow> string option" where
  "enoent_message e = (if e = 2 then Some ''No such file or directory'' else None)"

definition empty_message :: "c_int \<Rightarrow> string option" where
  "empty_message e = (if e = 0 then Some [] else None)"

section \<open>Facts about the machine integers\<close>

lemma sint_of_nat_c_int: "n \<le> INT_MAX \<Longrightarrow> sint (of_nat n :: c_int) = int n"
  by (simp add: signed_of_nat INT_MAX_def signed_take_bit_int_eq_self)

lemma of_nat_not_neg: "n \<le> INT_MAX \<Longrightarrow> \<not> (of_nat n :: c_int) <s 0"
  by (simp add: word_sless_alt sint_of_nat_c_int)

lemma scast_of_nat: "n \<le> INT_MAX \<Longrightarrow> (scast (of_nat n :: c_int) :: size_t) = of_nat n"
  by (simp add: scast_eq sint_of_nat_c_int)

lemma unat_of_nat_size_t: "n \<le> INT_MAX \<Longrightarrow> unat (of_nat n :: size_t) = n"
  by (simp add: unat_of_nat INT_MAX_def)

lemma le_of_nat: "n \<le> INT_MAX \<Longrightarrow> (len \<le> (of_nat n :: size_t)) = (unat len \<le> n)"
  by (simp add: word_le_nat_alt unat_of_nat_size_t)

lemma unat_of_nat_c_int: "n \<le> INT_MAX \<Longrightarrow> unat (of_nat n :: c_int) = n"
  by (simp add: unat_of_nat INT_MAX_def)

lemmas eval_simps = print_to_string_def vsnprintf_std_def dec_int_def dec_of_int_def dec_nat.simps
  digit_char_def word_sless_alt word_sle_eq INT_MAX_def Let_def

lemma not_sless_zero: "(\<not> num <s 0) = (0 \<le>s num)" for num :: c_int
  by (simp add: word_sless_alt word_sle_eq not_less)

lemma c_string_NUL: "c_string (NUL # m) = []"
  by (simp add: c_string_def)

lemma c_string_append_NUL: "NUL \<notin> set rtext \<Longrightarrow> c_string (rtext @ NUL # m) = rtext"
  by (induction rtext) (auto simp: c_string_def)

section \<open>The branches of print_to_string\<close>

lemma vsnprintf_std_fits:
  assumes "render fmt ap = Some rtext"
    and "length rtext < unat len"
    and "length rtext \<le> INT_MAX"
    and "unat len \<le> length mem"
  shows "vsnprintf_std render Buf mem len (Some fmt) ap
           = Inr (of_nat (length rtext), rtext @ NUL # drop (Suc (length rtext)) mem)"
proof -
  from assms(2) have "len \<noteq> 0"
    by (auto simp: unat_eq_0)
  moreover from assms(2) have "min (length rtext) (unat len - 1) = length rtext"
    by simp
  moreover from assms(2,4) have "\<not> length mem \<le> length rtext"
    by simp
  ultimately show ?thesis
    using assms(1,3) by (simp add: vsnprintf_std_def Let_def)
qed

lemma vsnprintf_std_cut:
  assumes "render fmt ap = Some rtext"
    and "unat len \<le> length rtext"
    and "length rtext \<le> INT_MAX"
    and "len \<noteq> 0"
    and "unat len \<le> length mem"
  shows "vsnprintf_std render Buf mem len (Some fmt) ap
           = Inr (of_nat (length rtext), take (unat len - 1) rtext @ NUL # drop (unat len) mem)"
proof -
  from assms(4) have pos: "0 < unat len"
    by (simp add: unat_gt_0)
  with assms(2) have "min (length rtext) (unat len - 1) = unat len - 1"
    by simp
  moreover from pos assms(5) have "\<not> length mem \<le> unat len - 1"
    by simp
  moreover from pos have "Suc (unat len - 1) = unat len"
    by simp
  ultimately show ?thesis
    using assms(1,3,4) by (simp add: vsnprintf_std_def Let_def)
qed

lemma print_to_string_returns_engine_length:
  assumes "vsnprintf str mem len fmt ap = Inr (num, mem1)"
    and "\<not> num <s 0"
    and "\<not> len \<le> scast num"
    and "str \<noteq> Null" and "fmt \<noteq> None"
    and "unat num < length mem1"
    and "mem1 ! unat num = NUL"
  shows "print_to_string ndebug vsnprintf str mem len fmt ap = Inr (num, mem1)"
  using assms by (simp add: print_to_string_def)

lemma print_to_string_stores_text:
  assumes "render fmt ap = Some rtext"
    and "length rtext < unat len"
    and "length rtext \<le> INT_MAX"
    and "unat len \<le> length mem"
  shows "print_to_string ndebug (vsnprintf_std render) Buf mem len (Some fmt) ap
           = Inr (of_nat (length rtext), rtext @ NUL # drop (Suc (length rtext)) mem)"
proof (rule print_to_string_returns_engine_length)
  show "vsnprintf_std render Buf mem len (Some fmt) ap
          = Inr (of_nat (length rtext), rtext @ NUL # drop (Suc (length rtext)) mem)"
    using assms by (rule vsnprintf_std_fits)
  show "\<not> (of_nat (length rtext) :: c_int) <s 0"
    using assms(3) by (rule of_nat_not_neg)
  show "\<not> len \<le> scast (of_nat (length rtext) :: c_int)"
    using assms(2,3) by (simp add: scast_of_nat le_of_nat)
  show "unat (of_nat (length rtext) :: c_int) < length (rtext @ NUL # drop (Suc (length rtext)) mem)"
    using assms(3) by (simp add: unat_of_nat_c_int)
  show "(rtext @ NUL # drop (Suc (length rtext)) mem) ! unat (of_nat (length rtext) :: c_int) = NUL"
    using assms(3) by (simp add: unat_of_nat_c_int)
qed simp_all

lemma print_to_string_truncated:
  assumes "vsnprintf str mem len fmt ap = Inr (num, mem1)"
    and "\<not> num <s 0"
    and "len \<le> scast num"
    and "str \<noteq> Null" and "fmt \<noteq> None"
    and "mem1 \<noteq> []"
  shows "print_to_string ndebug vsnprintf str mem len fmt ap = Inr (- 1, mem1[0 := NUL])"
  using assms by (simp add: print_to_string_def)

lemma first_byte_reset:
  "x \<noteq> [] \<Longrightarrow> x[0 := NUL] \<noteq> [] \<and> x[0 := NUL] ! 0 = NUL \<and> c_string (x[0 := NUL]) = []"
  by (cases x) (simp_all add: c_string_NUL)

lemma print_to_string_std_truncated:
  assumes "render fmt ap = Some rtext"
    and "unat len \<le> length rtext"
    and "length rtext \<le> INT_MAX"
    and "mem \<noteq> []"
    and "unat len \<le> length mem"
  shows "\<exists>x. x \<noteq> [] \<and> print_to_string ndebug (vsnprintf_std render) Buf mem len (Some fmt) ap
           = Inr (- 1, x[0 := NUL])"
proof (cases "len = 0")
  case True
  with assms(1,3) have e: "vsnprintf_std render Buf mem len (Some fmt) ap
      = Inr (of_nat (length rtext), mem)"
    by (simp add: vsnprintf_std_def)
  have "print_to_string ndebug (vsnprintf_std render) Buf mem len (Some fmt) ap
      = Inr (- 1, mem[0 := NUL])"
    using assms(3,4) True
    by (intro print_to_string_truncated
          [where vsnprintf = "vsnprintf_std render" and num = "of_nat (length rtext)", OF e])
       (simp_all add: of_nat_not_neg)
  with assms(4) show ?thesis
    by blast
next
  case False
  let ?x = "take (unat len - 1) rtext @ NUL # drop (unat len) mem"
  from assms False have e: "vsnprintf_std render Buf mem len (Some fmt) ap
      = Inr (of_nat (length rtext), ?x)"
    by (intro vsnprintf_std_cut) simp_all
  have "print_to_string ndebug (vsnprintf_std render) Buf mem len (Some fmt) ap
      = Inr (- 1, ?x[0 := NUL])"
    using assms(2,3)
    by (intro print_to_string_truncated
          [where vsnprintf = "vsnprintf_std render" and num = "of_nat (length rtext)", OF e])
       (simp_all add: of_nat_not_neg scast_of_nat le_of_nat)
  moreover have "?x \<noteq> []"
    by simp
  ultimately show ?thesis
    by blast
qed

lemma render_c_12345: "render_c ''%d'' [ArgInt 12345] = Some ''12345''"
  by (simp add: eval_simps)

section \<open>Properties of print_to_string\<close>

text \<open>
  C1, as amended. (1) For every engine: whenever it reports a would-be length that is not
  negative and not less than the capacity, \<open>print_to_string\<close> returns -1 and stores the
  terminator in \<^verbatim>\<open>str[0]\<close>, so the C string the caller sees is empty. (2) With the engine
  of the specification this is the case whenever the rendered text has a length \<open>L\<close> that is
  at least the capacity and a value of the \<^verbatim>\<open>int\<close> the engine returns. Both hold for every
  capacity (0 included) and every non-null buffer with a first byte to store into.
\<close>

theorem print_to_string_truncation:
  "(vsnprintf Buf mem len (Some fmt) ap = Inr (num, left) \<and> 0 \<le>s num \<and> len \<le> scast num
      \<and> left \<noteq> [] \<longrightarrow>
      print_to_string ndebug vsnprintf Buf mem len (Some fmt) ap = Inr (- 1, left[0 := NUL])
      \<and> left[0 := NUL] ! 0 = NUL
      \<and> c_string (left[0 := NUL]) = [])
   \<and> (render fmt ap = Some rtext \<and> unat len \<le> length rtext \<and> length rtext \<le> INT_MAX
      \<and> mem \<noteq> [] \<and> unat len \<le> length mem \<longrightarrow>
      (\<exists>m. print_to_string ndebug (vsnprintf_std render) Buf mem len (Some fmt) ap = Inr (- 1, m)
           \<and> m \<noteq> [] \<and> m ! 0 = NUL \<and> c_string m = []))"
proof (intro conjI impI)
  assume h: "vsnprintf Buf mem len (Some fmt) ap = Inr (num, left) \<and> 0 \<le>s num
      \<and> len \<le> scast num \<and> left \<noteq> []"
  then have a: "vsnprintf Buf mem len (Some fmt) ap = Inr (num, left)"
    and b: "\<not> num <s 0" and c: "len \<le> scast num" and d: "left \<noteq> []"
    by (simp_all add: not_sless_zero)
  show "print_to_string ndebug vsnprintf Buf mem len (Some fmt) ap
      = Inr (- 1, left[0 := NUL])"
    using print_to_string_truncated [where vsnprintf = vsnprintf, OF a b c _ _ d] by simp
  from h show "left[0 := NUL] ! 0 = NUL" and "c_string (left[0 := NUL]) = []"
    by (simp_all add: first_byte_reset)
next
  assume "render fmt ap = Some rtext \<and> unat len \<le> length rtext \<and> length rtext \<le> INT_MAX
      \<and> mem \<noteq> [] \<and> unat len \<le> length mem"
  then obtain x where "x \<noteq> []"
    and "print_to_string ndebug (vsnprintf_std render) Buf mem len (Some fmt) ap
           = Inr (- 1, x[0 := NUL])"
    using print_to_string_std_truncated [of render fmt ap rtext len mem ndebug] by blast
  then show "\<exists>m. print_to_string ndebug (vsnprintf_std render) Buf mem len (Some fmt) ap
               = Inr (- 1, m)
           \<and> m \<noteq> [] \<and> m ! 0 = NUL \<and> c_string m = []"
    using first_byte_reset [of x] by blast
qed

theorem print_to_string_truncation_witness:
  "print_to_string False (vsnprintf_std render_c) Buf ''abcdef'' 5 (Some ''%d'') [ArgInt 12345]
     = Inr (- 1, (''1234'' @ NUL # ''f'')[0 := NUL])
   \<and> (''1234'' @ NUL # ''f'')[0 := NUL] ! 0 = NUL
   \<and> c_string ((''1234'' @ NUL # ''f'')[0 := NUL]) = []
   \<and> print_to_string False (vsnprintf_std render_c) Buf ''abcdef'' 5 (Some ''%d'') [ArgInt 12345]
     = Inr (- 1, NUL # ''234'' @ NUL # ''f'')"
proof -
  have e: "vsnprintf_std render_c Buf ''abcdef'' 5 (Some ''%d'') [ArgInt 12345]
             = Inr (5, ''1234'' @ NUL # ''f'')"
    by (simp add: eval_simps)
  have n: "(0 :: c_int) \<le>s 5" "(5 :: size_t) \<le> scast (5 :: c_int)"
    by (simp_all add: eval_simps)
  note t = print_to_string_truncation
    [where vsnprintf = "vsnprintf_std render_c" and mem = "''abcdef''" and len = 5
       and fmt = "''%d''" and ap = "[ArgInt 12345]" and num = 5
       and left = "''1234'' @ NUL # ''f''" and render = render_c and rtext = "''12345''"
       and ndebug = False]
  show ?thesis
    using t e n render_c_12345 by (simp add: INT_MAX_def)
qed

text \<open>
  The claim as stated fails for a rendered length beyond the range of \<^verbatim>\<open>int\<close>: the engine
  then reports a negative value, line 24 returns before the store of line 32, and with a
  capacity of 4 and a text of 2147483648 characters the call returns -1 with \<^verbatim>\<open>str[0]\<close>
  not reset.
\<close>

theorem print_to_string_truncation_counterexample:
  "render_c ''%s'' [ArgStr (replicate 2147483648 CHR ''a'')]
     = Some (replicate 2147483648 CHR ''a'')
   \<and> unat (4 :: size_t) \<le> length (replicate 2147483648 CHR ''a'')
   \<and> print_to_string False (vsnprintf_std render_c) Buf ''abcd'' 4 (Some ''%s'')
        [ArgStr (replicate 2147483648 CHR ''a'')]
     = Inr (- 1, ''abcd'')
   \<and> ''abcd'' ! 0 \<noteq> NUL"
  by (simp add: print_to_string_def vsnprintf_std_def INT_MAX_def word_sless_alt NUL_def)





text \<open>
  C4. When the engine reports a negative would-be length, \<open>print_to_string\<close> returns -1 and
  the buffer holds exactly the bytes the engine left: the function writes nothing itself.
  This holds for every engine, with and without assertions, for a non-null buffer and format.
\<close>

theorem print_to_string_engine_error:
  assumes "vsnprintf str mem len fmt ap = Inr (num, mem1)"
    and "num <s 0"
    and "str \<noteq> Null"
    and "fmt \<noteq> None"
  shows "print_to_string ndebug vsnprintf str mem len fmt ap = Inr (- 1, mem1)"
  using assms by (simp add: print_to_string_def)

theorem print_to_string_engine_error_witness:
  "print_to_string False (vsnprintf_std render_c) Buf ''abcd'' 4 (Some ''%ls'') [ArgWide [8364]]
     = Inr (- 1, ''abcd'')"
proof -
  have e: "vsnprintf_std render_c Buf ''abcd'' 4 (Some ''%ls'') [ArgWide [8364]]
             = Inr (- 1, ''abcd'')"
    by (simp add: vsnprintf_std_def)
  have n: "(- 1 :: c_int) <s 0"
    by simp
  show ?thesis
    using print_to_string_engine_error
      [where vsnprintf = "vsnprintf_std render_c" and str = Buf and mem = "''abcd''"
         and len = 4 and fmt = "Some ''%ls''" and ap = "[ArgWide [8364]]"
         and ndebug = False, OF e n]
    by simp
qed

text \<open>
  C3. The claim says that a call with capacity 0 writes nothing and does not go through a
  null buffer pointer. The code does both. With capacity 0 every would-be length the engine
  reports is at least the capacity, so line 32 stores a terminator in \<^verbatim>\<open>str[0]\<close>, one byte
  more than the \<^verbatim>\<open>len\<close> bytes that \<^verbatim>\<open>base.h\<close> documents as the maximum written: a
  one-byte buffer is overwritten although the engine left it alone, a buffer with no byte of
  storage is written out of bounds, and a null buffer is dereferenced when assertions are
  compiled out (with assertions the call aborts at line 14).
\<close>

theorem store_beyond_zero_capacity:
  "vsnprintf_std render_c Buf ''x'' 0 (Some ''%d'') [ArgInt 12345] = Inr (5, ''x'')
   \<and> (\<forall>ndebug. print_to_string ndebug (vsnprintf_std render_c) Buf ''x'' 0 (Some ''%d'')
          [ArgInt 12345] = Inr (- 1, [NUL]))
   \<and> (\<forall>ndebug. print_to_string ndebug (vsnprintf_std render_c) Buf [] 0 (Some ''%d'')
          [ArgInt 12345] = Inl OutOfBounds)
   \<and> print_to_string True (vsnprintf_std render_c) Null [] 0 (Some ''%d'') [ArgInt 12345]
       = Inl NullDereference
   \<and> print_to_string False (vsnprintf_std render_c) Null [] 0 (Some ''%d'') [ArgInt 12345]
       = Inl AssertionFailed"
  by (simp add: eval_simps)

text \<open>
  C9, as amended. For a non-null buffer with a first byte and capacity 0, whatever the
  engine reports, \<open>print_to_string\<close> returns -1, never a would-be length. It stores the
  terminator in \<^verbatim>\<open>str[0]\<close> exactly when the engine's would-be length is not negative; when
  the engine reports an error the buffer stays as the engine left it.
\<close>

theorem print_to_string_zero_capacity:
  assumes "vsnprintf Buf mem 0 fmt ap = Inr (num, mem1)"
    and "fmt \<noteq> None"
    and "mem1 \<noteq> []"
  shows "print_to_string ndebug vsnprintf Buf mem 0 fmt ap
           = Inr (- 1, if num <s 0 then mem1 else mem1[0 := NUL])"
  using assms by (simp add: print_to_string_def)

theorem print_to_string_zero_capacity_witness:
  "print_to_string False (vsnprintf_std render_c) Buf ''abcd'' 0 (Some ''%d'') [ArgInt 12345]
     = Inr (- 1, NUL # ''bcd'')"
proof -
  have e: "vsnprintf_std render_c Buf ''abcd'' 0 (Some ''%d'') [ArgInt 12345] = Inr (5, ''abcd'')"
    by (simp add: eval_simps)
  show ?thesis
    using print_to_string_zero_capacity
      [where vsnprintf = "vsnprintf_std render_c" and mem = "''abcd''" and fmt = "Some ''%d''"
         and ap = "[ArgInt 12345]" and ndebug = False, OF e]
    by (simp add: word_sless_alt)
qed

text \<open>
  The claim as stated fails where the engine reports an error: under \<^verbatim>\<open>%ls\<close> a wide
  character without a single-byte encoding makes the engine return a negative value, and
  the call with capacity 0 returns -1 with \<^verbatim>\<open>str[0]\<close> still holding \<^verbatim>\<open>a\<close>.
\<close>

theorem print_to_string_zero_capacity_counterexample:
  "print_to_string False (vsnprintf_std render_c) Buf ''abcd'' 0 (Some ''%ls'') [ArgWide [8364]]
     = Inr (- 1, ''abcd'')
   \<and> ''abcd'' ! 0 \<noteq> NUL"
  by (simp add: eval_simps NUL_def)

section \<open>Properties of strerror_r_improved\<close>

lemma render_c_unknown:
  "render_c ''%s %d'' [ArgStr u, ArgInt err] = Some (u @ '' '' @ dec_int err)"
  by simp

lemma digit_char_in: "digit_char d \<in> set ''0123456789''"
  unfolding digit_char_def by (rule nth_mem) simp

lemma dec_nat_digits: "set (dec_nat n) \<subseteq> set ''0123456789''"
proof (induction n rule: dec_nat.induct)
  case (1 n)
  show ?case
  proof (cases "n < 10")
    case True
    then have "dec_nat n = [digit_char n]"
      by (simp add: dec_nat.simps)
    then show ?thesis
      using digit_char_in [of n] by simp
  next
    case False
    then have "dec_nat n = dec_nat (n div 10) @ [digit_char (n mod 10)]"
      by (subst dec_nat.simps) simp
    then show ?thesis
      using 1 False digit_char_in [of "n mod 10"] by simp
  qed
qed

lemma dec_nat_length: "0 < k \<Longrightarrow> n < 10 ^ k \<Longrightarrow> length (dec_nat n) \<le> k"
proof (induction k arbitrary: n)
  case 0
  then show ?case by simp
next
  case (Suc k)
  show ?case
  proof (cases "n < 10")
    case True
    then show ?thesis
      by (simp add: dec_nat.simps)
  next
    case False
    then have k: "0 < k"
      using Suc.prems by (cases k) simp_all
    from Suc.prems have "n div 10 < 10 ^ k"
      by (simp add: less_mult_imp_div_less mult.commute)
    with k have "length (dec_nat (n div 10)) \<le> k"
      by (rule Suc.IH)
    moreover from False have "dec_nat n = dec_nat (n div 10) @ [digit_char (n mod 10)]"
      by (subst dec_nat.simps) simp
    ultimately show ?thesis
      by simp
  qed
qed

lemma dec_int_length: "length (dec_int i) \<le> 11"
proof -
  have a: "nat (sint i) < 10 ^ 10"
    using sint_lt [of i] by simp
  have b: "nat (- sint i) < 10 ^ 10"
    using sint_ge [of i] by simp
  have "length (dec_nat (nat (sint i))) \<le> 10" and "length (dec_nat (nat (- sint i))) \<le> 10"
    using a b by (simp_all add: dec_nat_length)
  then show ?thesis
    by (simp add: dec_int_def dec_of_int_def)
qed

lemma dec_int_no_NUL: "NUL \<notin> set (dec_int i)"
  using dec_nat_digits [of "nat (sint i)"] dec_nat_digits [of "nat (- sint i)"]
  by (auto simp: dec_int_def dec_of_int_def NUL_def)

lemma strerror_r_improved_primary:
  assumes "strerror_r err str mem len = Inr (0, mem1)"
  shows "strerror_r_improved ndebug strerror_r vsnprintf err str mem len = Inr (Arg str, mem1)"
  using assms by (simp add: strerror_r_improved_def word_sle_eq)

lemma strerror_r_improved_fallback:
  assumes "strerror_r err str mem len = Inr (rc, mem1)"
    and "rc \<noteq> 0"
    and "print_to_string ndebug vsnprintf str mem1 len (Some ''%s %d'')
           [ArgStr ''unknown error'', ArgInt err] = Inr (rc2, mem2)"
  shows "strerror_r_improved ndebug strerror_r vsnprintf err str mem len
           = Inr (if 0 \<le>s rc2 then Arg str else Static ''unknown error'', mem2)"
  using assms by (simp add: strerror_r_improved_def)

text \<open>
  C5. Let the host's call return the status \<open>rc\<close> and, when \<open>rc\<close> is not 0, let the
  synthesis of \<^verbatim>\<open>unknown error <code>\<close> through \<open>print_to_string\<close> return \<open>sc\<close>. Then
  \<open>strerror_r_improved\<close> returns, and its result is the caller's pointer exactly when the
  host's call succeeded (\<open>rc = 0\<close>) or the synthesis did (\<open>0 \<le> sc\<close>); it is the literal
  \<^verbatim>\<open>unknown error\<close> exactly when both failed. The buffer is as the last of the calls made
  left it.
\<close>

theorem strerror_r_improved_result:
  assumes "strerror_r err str mem len = Inr (rc, hbuf)"
    and "rc \<noteq> 0 \<Longrightarrow>
           print_to_string ndebug vsnprintf str hbuf len (Some ''%s %d'')
             [ArgStr ''unknown error'', ArgInt err] = Inr (sc, sbuf)"
  shows "\<exists>p m. strerror_r_improved ndebug strerror_r vsnprintf err str mem len = Inr (p, m)
           \<and> (p = Arg str \<longleftrightarrow> rc = 0 \<or> 0 \<le>s sc)
           \<and> (p = Static ''unknown error'' \<longleftrightarrow> rc \<noteq> 0 \<and> sc <s 0)
           \<and> m = (if rc = 0 then hbuf else sbuf)"
proof (cases "rc = 0")
  case True
  with assms(1) show ?thesis
    by (simp add: strerror_r_improved_primary)
next
  case False
  have ns: "(sc <s 0) = (\<not> 0 \<le>s sc)"
    by (simp add: word_sless_alt word_sle_eq not_le)
  from False assms show ?thesis
    by (simp add: strerror_r_improved_fallback ns)
qed

theorem strerror_r_improved_result_witness:
  "strerror_r_improved False (strerror_r_xsi no_messages) (vsnprintf_std render_c)
     9999 Buf ''0123456789'' 10
     = Inr (Static ''unknown error'', NUL # ''nknown e'' @ [NUL])
   \<and> strerror_r_improved False (strerror_r_xsi enoent_message) (vsnprintf_std render_c)
     2 Buf (replicate 32 CHR ''.'') 32
     = Inr (Arg Buf, ''No such file or directory'' @ NUL # replicate 6 CHR ''.'')"
proof -
  have h: "strerror_r_xsi no_messages 9999 Buf ''0123456789'' 10 = Inr (EINVAL, ''0123456789'')"
    by (simp add: strerror_r_xsi_def no_messages_def)
  have p: "print_to_string False (vsnprintf_std render_c) Buf ''0123456789'' 10 (Some ''%s %d'')
             [ArgStr ''unknown error'', ArgInt 9999] = Inr (- 1, NUL # ''nknown e'' @ [NUL])"
    by (simp add: eval_simps)
  have g: "strerror_r_xsi enoent_message 2 Buf (replicate 32 CHR ''.'') 32
             = Inr (0, ''No such file or directory'' @ NUL # replicate 6 CHR ''.'')"
    by (simp add: strerror_r_xsi_def enoent_message_def)
  have a: "strerror_r_improved False (strerror_r_xsi no_messages) (vsnprintf_std render_c)
     9999 Buf ''0123456789'' 10
     = Inr (Static ''unknown error'', NUL # ''nknown e'' @ [NUL])"
    using strerror_r_improved_result
      [where strerror_r = "strerror_r_xsi no_messages" and vsnprintf = "vsnprintf_std render_c"
         and err = 9999 and str = Buf and mem = "''0123456789''" and len = 10
         and ndebug = False, OF h p]
    by (auto simp: EINVAL_def)
  have b: "strerror_r_improved False (strerror_r_xsi enoent_message) (vsnprintf_std render_c)
     2 Buf (replicate 32 CHR ''.'') 32
     = Inr (Arg Buf, ''No such file or directory'' @ NUL # replicate 6 CHR ''.'')"
    using strerror_r_improved_result
      [where strerror_r = "strerror_r_xsi enoent_message" and vsnprintf = "vsnprintf_std render_c"
         and err = 2 and str = Buf and mem = "replicate 32 CHR ''.''" and len = 32
         and ndebug = False and sc = 0 and sbuf = "[]", OF g]
    by auto
  from a b show ?thesis
    by simp
qed

text \<open>
  C6, as amended. Let the capacity be at least the length of \<^verbatim>\<open>unknown error <code>\<close> plus
  one (and within the storage of the buffer). Then for every error code
  \<open>strerror_r_improved\<close> returns the caller's pointer. When the host's call fails the string
  there is \<^verbatim>\<open>unknown error <code>\<close> with the code in decimal, which is not empty. When the
  host's call succeeds the string is the description the host stored, which line 50 returns
  unchecked: the result is empty exactly when the host succeeded with an empty description.
\<close>

theorem strerror_r_improved_nonempty:
  assumes "strerror_r err Buf mem len = Inr (rc, hbuf)"
    and "unat len \<le> length hbuf"
    and "length (''unknown error '' @ dec_int err) + 1 \<le> unat len"
  shows "\<exists>m s. strerror_r_improved ndebug strerror_r (vsnprintf_std render_c) err Buf mem len
                  = Inr (Arg Buf, m)
           \<and> string_at (Arg Buf) m = Some s
           \<and> s = (if rc = 0 then c_string hbuf else ''unknown error '' @ dec_int err)
           \<and> (s = [] \<longleftrightarrow> rc = 0 \<and> c_string hbuf = [])"
proof (cases "rc = 0")
  case True
  with assms(1) show ?thesis
    by (simp add: strerror_r_improved_primary)
next
  case False
  let ?t = "''unknown error'' @ '' '' @ dec_int err"
  have len_t: "length ?t \<le> INT_MAX"
    using dec_int_length [of err] by (simp add: INT_MAX_def)
  have nonul: "NUL \<notin> set ?t"
    using dec_int_no_NUL [of err] by (simp add: NUL_def)
  have "print_to_string ndebug (vsnprintf_std render_c) Buf hbuf len (Some ''%s %d'')
          [ArgStr ''unknown error'', ArgInt err]
        = Inr (of_nat (length ?t), ?t @ NUL # drop (Suc (length ?t)) hbuf)"
    using assms(2,3) len_t by (intro print_to_string_stores_text render_c_unknown) simp_all
  with assms(1) False
  have "strerror_r_improved ndebug strerror_r (vsnprintf_std render_c) err Buf mem len
          = Inr (if 0 \<le>s (of_nat (length ?t) :: c_int) then Arg Buf else Static ''unknown error'',
                 ?t @ NUL # drop (Suc (length ?t)) hbuf)"
    by (rule strerror_r_improved_fallback)
  moreover have "0 \<le>s (of_nat (length ?t) :: c_int)"
    using of_nat_not_neg [OF len_t] by (simp add: not_sless_zero)
  moreover have "c_string (?t @ NUL # drop (Suc (length ?t)) hbuf) = ?t"
    using nonul by (rule c_string_append_NUL)
  ultimately show ?thesis
    using False by simp
qed

theorem strerror_r_improved_nonempty_witness:
  "strerror_r_improved False (strerror_r_xsi no_messages) (vsnprintf_std render_c)
     9999 Buf (replicate 32 CHR ''.'') 32
     = Inr (Arg Buf, ''unknown error 9999'' @ NUL # replicate 13 CHR ''.'')
   \<and> string_at (Arg Buf) (''unknown error 9999'' @ NUL # replicate 13 CHR ''.'')
       = Some ''unknown error 9999''
   \<and> strerror_r_improved False (strerror_r_xsi enoent_message) (vsnprintf_std render_c)
     2 Buf (replicate 32 CHR ''.'') 32
     = Inr (Arg Buf, ''No such file or directory'' @ NUL # replicate 6 CHR ''.'')
   \<and> string_at (Arg Buf) (''No such file or directory'' @ NUL # replicate 6 CHR ''.'')
       = Some ''No such file or directory''"
proof -
  have h: "strerror_r_xsi no_messages 9999 Buf (replicate 32 CHR ''.'') 32
             = Inr (EINVAL, replicate 32 CHR ''.'')"
    by (simp add: strerror_r_xsi_def no_messages_def)
  have g: "strerror_r_xsi enoent_message 2 Buf (replicate 32 CHR ''.'') 32
             = Inr (0, ''No such file or directory'' @ NUL # replicate 6 CHR ''.'')"
    by (simp add: strerror_r_xsi_def enoent_message_def)
  have d: "dec_int 9999 = ''9999''" "dec_int 2 = ''2''"
    by (simp_all add: eval_simps)
  have c: "c_string (''unknown error 9999'' @ NUL # replicate 13 CHR ''.'')
             = ''unknown error 9999''"
    "c_string (''No such file or directory'' @ NUL # replicate 6 CHR ''.'')
             = ''No such file or directory''"
    by (simp_all add: c_string_def NUL_def)
  note a = strerror_r_improved_nonempty
    [where strerror_r = "strerror_r_xsi no_messages" and err = 9999
       and mem = "replicate 32 CHR ''.''" and len = 32 and ndebug = False, OF h]
  note b = strerror_r_improved_nonempty
    [where strerror_r = "strerror_r_xsi enoent_message" and err = 2
       and mem = "replicate 32 CHR ''.''" and len = 32 and ndebug = False, OF g]
  have a': "strerror_r_improved False (strerror_r_xsi no_messages) (vsnprintf_std render_c)
     9999 Buf (replicate 32 CHR ''.'') 32
     = Inr (Arg Buf, ''unknown error 9999'' @ NUL # replicate 13 CHR ''.'')"
    by (simp add: strerror_r_improved_def strerror_r_xsi_def no_messages_def EINVAL_def
          eval_simps NUL_def)
  have b': "strerror_r_improved False (strerror_r_xsi enoent_message) (vsnprintf_std render_c)
     2 Buf (replicate 32 CHR ''.'') 32
     = Inr (Arg Buf, ''No such file or directory'' @ NUL # replicate 6 CHR ''.'')"
    using g by (simp add: strerror_r_improved_primary)
  from a a' b b' c show ?thesis
    by (auto simp: d EINVAL_def)
qed

text \<open>
  The claim as stated fails for a host that succeeds with an empty description: with a
  capacity of 32 the result is the caller's buffer holding the empty string.
\<close>

theorem strerror_r_improved_nonempty_counterexample:
  "unat (32 :: size_t) \<ge> length (''unknown error '' @ dec_int 0) + 1
   \<and> strerror_r_improved False (strerror_r_xsi empty_message) (vsnprintf_std render_c)
        0 Buf (replicate 32 CHR ''.'') 32
     = Inr (Arg Buf, NUL # replicate 31 CHR ''.'')
   \<and> string_at (Arg Buf) (NUL # replicate 31 CHR ''.'') = Some []"
  by (simp add: strerror_r_improved_def strerror_r_xsi_def empty_message_def eval_simps
        c_string_NUL)

text \<open>
  C10. For a non-null buffer, whatever the error code, the capacity, the host's call and the
  engine do, a result that \<open>strerror_r_improved\<close> returns is not the null pointer: it is the
  caller's pointer or the literal \<^verbatim>\<open>unknown error\<close>.
\<close>

theorem strerror_r_improved_not_null:
  assumes "str \<noteq> Null"
    and "strerror_r_improved ndebug strerror_r vsnprintf err str mem len = Inr (p, m)"
  shows "p \<noteq> Arg Null \<and> (p = Arg str \<or> p = Static ''unknown error'')"
  using assms
  by (auto simp: strerror_r_improved_def Let_def split: sum.splits if_splits prod.splits)

theorem strerror_r_improved_not_null_witness:
  "strerror_r_improved True (strerror_r_xsi enoent_message) (vsnprintf_std render_c)
     2 Buf (replicate 32 CHR ''.'') 32
     = Inr (Arg Buf, ''No such file or directory'' @ NUL # replicate 6 CHR ''.'')
   \<and> Arg Buf \<noteq> Arg Null
   \<and> (Arg Buf = Arg Buf \<or> Arg Buf = Static ''unknown error'')"
proof -
  have r: "strerror_r_improved True (strerror_r_xsi enoent_message) (vsnprintf_std render_c)
             2 Buf (replicate 32 CHR ''.'') 32
           = Inr (Arg Buf, ''No such file or directory'' @ NUL # replicate 6 CHR ''.'')"
    by (simp add: strerror_r_improved_def strerror_r_xsi_def enoent_message_def word_sle_eq)
  have n: "Buf \<noteq> Null"
    by simp
  show ?thesis
    using strerror_r_improved_not_null [OF n r] r by simp
qed

section \<open>Properties of humanized_timestamp\<close>

lemma dec_nat_length_eq: "0 < k \<Longrightarrow> 10 ^ (k - 1) \<le> n \<Longrightarrow> n < 10 ^ k \<Longrightarrow> length (dec_nat n) = k"
proof (induction k arbitrary: n)
  case 0
  then show ?case by simp
next
  case (Suc k)
  show ?case
  proof (cases "k = 0")
    case True
    with Suc.prems show ?thesis
      by (simp add: dec_nat.simps)
  next
    case False
    then have k: "0 < k"
      by simp
    then have "(10 :: nat) \<le> 10 ^ k"
      by (cases k) simp_all
    with Suc.prems have big: "\<not> n < 10"
      by simp
    from Suc.prems have up: "n div 10 < 10 ^ k"
      by (simp add: less_mult_imp_div_less mult.commute)
    from k have "(10 :: nat) ^ k = 10 ^ (k - 1) * 10"
      by (cases k) simp_all
    with Suc.prems have lo: "10 ^ (k - 1) \<le> n div 10"
      by (simp add: less_eq_div_iff_mult_less_eq)
    from k lo up have "length (dec_nat (n div 10)) = k"
      by (rule Suc.IH)
    moreover from big have "dec_nat n = dec_nat (n div 10) @ [digit_char (n mod 10)]"
      by (subst dec_nat.simps) simp
    ultimately show ?thesis
      by simp
  qed
qed

lemma digits_layout:
  "set s \<subseteq> set ''0123456789'' \<Longrightarrow> list_all2 in_class (replicate (length s) Digit) s"
  by (induction s) simp_all

lemma dec_nat_layout:
  assumes "0 < k" and "10 ^ (k - 1) \<le> n" and "n < 10 ^ k"
  shows "list_all2 in_class (replicate k Digit) (dec_nat n)"
  using digits_layout [OF dec_nat_digits, of n] dec_nat_length_eq [OF assms] by simp

lemma wday_abbr_layout:
  assumes "0 \<le> d" and "d \<le> 6"
  shows "list_all2 in_class [Upper, Lower, Lower] (wday_abbr d)"
proof -
  from assms have "d = 0 \<or> d = 1 \<or> d = 2 \<or> d = 3 \<or> d = 4 \<or> d = 5 \<or> d = 6"
    by arith
  then show ?thesis
    by (auto simp: wday_abbr_def)
qed

lemma mon_abbr_layout:
  assumes "0 \<le> m" and "m \<le> 11"
  shows "list_all2 in_class [Upper, Lower, Lower] (mon_abbr m)"
proof -
  from assms have "m = 0 \<or> m = 1 \<or> m = 2 \<or> m = 3 \<or> m = 4 \<or> m = 5 \<or> m = 6
      \<or> m = 7 \<or> m = 8 \<or> m = 9 \<or> m = 10 \<or> m = 11"
    by arith
  then show ?thesis
    by (auto simp: mon_abbr_def)
qed

lemma digit_class: "in_class Digit (digit_char d)"
  using digit_char_in [of d] by simp

lemma pad2_zero_layout:
  assumes "0 \<le> n" and "n \<le> 99"
  shows "list_all2 in_class [Digit, Digit] (pad2 CHR ''0'' n)"
proof (cases "n < 10")
  case True
  with assms show ?thesis
    using digit_class [of "nat n"] by (simp add: pad2_def)
next
  case False
  with assms have "list_all2 in_class (replicate 2 Digit) (dec_nat (nat n))"
    by (intro dec_nat_layout) simp_all
  with False assms show ?thesis
    by (simp add: pad2_def dec_of_int_def numeral_2_eq_2)
qed

lemma digit_or_space: "in_class Digit c \<Longrightarrow> in_class DigitOrSpace c"
  by simp

lemma two_digits_relax:
  "list_all2 in_class [Digit, Digit] s \<Longrightarrow> list_all2 in_class [DigitOrSpace, Digit] s"
  by (auto simp del: in_class.simps simp add: list_all2_Cons1 intro: digit_or_space)

lemma pad2_space_layout:
  assumes "0 \<le> n" and "n \<le> 99"
  shows "list_all2 in_class [DigitOrSpace, Digit] (pad2 CHR '' '' n)"
proof (cases "n < 10")
  case True
  with assms show ?thesis
    using digit_class [of "nat n"] by (simp add: pad2_def)
next
  case False
  with assms have "list_all2 in_class (replicate 2 Digit) (dec_nat (nat n))"
    by (intro dec_nat_layout) simp_all
  then have "list_all2 in_class [DigitOrSpace, Digit] (dec_nat (nat n))"
    by (simp add: numeral_2_eq_2 two_digits_relax)
  with False assms show ?thesis
    by (simp add: pad2_def dec_of_int_def)
qed

lemma year_layout:
  assumes "1000 \<le> y" and "y \<le> 9999"
  shows "list_all2 in_class [Digit, Digit, Digit, Digit] (dec_of_int y)"
proof -
  from assms have "list_all2 in_class (replicate 4 Digit) (dec_nat (nat y))"
    by (intro dec_nat_layout) simp_all
  with assms show ?thesis
    by (simp add: dec_of_int_def numeral_eq_Suc)
qed

lemma sep_layout: "list_all2 in_class [Exactly c] [c]"
  by simp

lemma timestamp_layout_split:
  "timestamp_layout =
     [Upper, Lower, Lower] @ [Exactly CHR '' ''] @ [Upper, Lower, Lower] @ [Exactly CHR '' '']
       @ [DigitOrSpace, Digit] @ [Exactly CHR '' '']
       @ [Digit, Digit] @ [Exactly CHR '':''] @ [Digit, Digit] @ [Exactly CHR '':'']
       @ [Digit, Digit] @ [Exactly CHR '' ''] @ [Digit, Digit, Digit, Digit]"
  by (simp add: timestamp_layout_def)

lemma c_date_time_layout:
  assumes "valid_tm ptm" and "1000 \<le> tm_year ptm + 1900" and "tm_year ptm + 1900 \<le> 9999"
  shows "matches_layout timestamp_layout (c_date_time ptm)"
  unfolding matches_layout_def timestamp_layout_split c_date_time_def
  using assms
  by (intro list_all2_appendI wday_abbr_layout mon_abbr_layout pad2_zero_layout
        pad2_space_layout year_layout sep_layout)
     (simp_all add: valid_tm_def)

lemma layout_no_NUL:
  "list_all2 in_class layout s \<Longrightarrow> Exactly NUL \<notin> set layout \<Longrightarrow> NUL \<notin> set s"
proof (induction rule: list_all2_induct)
  case Nil
  then show ?case by simp
next
  case (Cons k layout c s)
  then have "c \<noteq> NUL"
    by (cases k) (auto simp: NUL_def)
  with Cons show ?case
    by simp
qed

lemma c_date_time_facts:
  assumes "valid_tm ptm" and "1000 \<le> tm_year ptm + 1900" and "tm_year ptm + 1900 \<le> 9999"
  shows "length (c_date_time ptm) = 24" and "NUL \<notin> set (c_date_time ptm)"
proof -
  have m: "list_all2 in_class timestamp_layout (c_date_time ptm)"
    using c_date_time_layout [OF assms] by (simp add: matches_layout_def)
  from list_all2_lengthD [OF m] show "length (c_date_time ptm) = 24"
    by (simp add: timestamp_layout_def)
  from m show "NUL \<notin> set (c_date_time ptm)"
    by (rule layout_no_NUL) (simp add: timestamp_layout_def NUL_def)
qed

lemma strftime_c_locale_c: "strftime_c_locale ''%c'' ptm = c_date_time ptm"
  by simp

lemma of_nat_size_t_eq_0: "n < unat (len :: size_t) \<Longrightarrow> (0 = (of_nat n :: size_t)) = (n = 0)"
proof -
  assume "n < unat len"
  then have u: "unat (of_nat n :: size_t) = n"
    by (rule le_unat_uoi [OF less_imp_le])
  show ?thesis
  proof
    assume "0 = (of_nat n :: size_t)"
    then have "unat (0 :: size_t) = unat (of_nat n :: size_t)"
      by simp
    with u show "n = 0"
      by simp
  next
    assume "n = 0"
    then show "0 = (of_nat n :: size_t)"
      by simp
  qed
qed

lemma strlen_stored: "NUL \<notin> set rtext \<Longrightarrow> strlen Buf (rtext @ NUL # m) = Inr (of_nat (length rtext))"
  by (simp add: strlen_def c_string_append_NUL)

lemma humanized_timestamp_renders:
  assumes "localtime_r clock = Some ptm"
    and "render ''%c'' ptm = rtext"
    and "rtext \<noteq> []"
    and "NUL \<notin> set rtext"
    and "length rtext < unat len"
    and "unat len \<le> length mem"
  shows "humanized_timestamp ndebug clock localtime_r (strftime_std render) Buf mem len
           = Inr (Arg Buf, rtext @ NUL # drop (Suc (length rtext)) mem)"
proof -
  from assms(5,6) have "\<not> length mem \<le> length rtext"
    by simp
  with assms(2,5)
  have "strftime_std render Buf mem len ''%c'' ptm
          = Inr (of_nat (length rtext), rtext @ NUL # drop (Suc (length rtext)) mem)"
    by (simp add: strftime_std_def)
  moreover from assms(3,5) have "0 \<noteq> (of_nat (length rtext) :: size_t)"
    by (simp add: of_nat_size_t_eq_0)
  ultimately show ?thesis
    using assms(1,4) by (simp add: humanized_timestamp_def strlen_stored)
qed

lemma humanized_timestamp_no_local_time:
  assumes "localtime_r clock = None"
  shows "humanized_timestamp ndebug clock localtime_r strftime str mem len
           = Inr (Static ''error'', mem)"
  using assms by (simp add: humanized_timestamp_def)

lemma humanized_timestamp_zero_bytes:
  assumes "localtime_r clock = Some ptm"
    and "strftime str mem len ''%c'' ptm = Inr (0, mem1)"
  shows "humanized_timestamp ndebug clock localtime_r strftime str mem len
           = Inr (Static ''error'', mem1)"
  using assms by (simp add: humanized_timestamp_def)

lemma strftime_std_too_small:
  assumes "unat len \<le> length (render fmt ptm)"
  shows "strftime_std render str mem len fmt ptm = Inr (0, mem)"
  using assms by (simp add: strftime_std_def)

text \<open>
  C7, as amended. (1) In the \<^verbatim>\<open>C\<close> locale, for a local time within the ranges of the C
  standard whose year has four digits, a capacity of at least 25 bytes (within the storage
  of the buffer) makes \<open>humanized_timestamp\<close> return the caller's pointer, and the buffer
  then holds a non-empty string of 24 characters in the layout
  \<^verbatim>\<open>Www Mmm dd hh:mm:ss yyyy\<close>, followed by a terminator. (2) Under any locale the caller's
  pointer is returned with the rendered text in the buffer whenever that text is not empty
  and shorter than the capacity. (3) When the local-time conversion fails the literal
  \<^verbatim>\<open>error\<close> is returned. (4) When the rendering returns zero bytes the literal \<^verbatim>\<open>error\<close>
  is returned, (5) which is what happens when the text and its terminator do not fit.
\<close>

theorem humanized_timestamp_result:
  "(localtime_r clock = Some ptm \<and> valid_tm ptm
      \<and> 1000 \<le> tm_year ptm + 1900 \<and> tm_year ptm + 1900 \<le> 9999
      \<and> 25 \<le> unat len \<and> unat len \<le> length mem \<longrightarrow>
      (\<exists>s. humanized_timestamp ndebug clock localtime_r (strftime_std strftime_c_locale)
              Buf mem len = Inr (Arg Buf, s @ NUL # drop 25 mem)
           \<and> string_at (Arg Buf) (s @ NUL # drop 25 mem) = Some s
           \<and> s \<noteq> [] \<and> length s = 24 \<and> matches_layout timestamp_layout s))
   \<and> (localtime_r clock = Some ptm \<and> render ''%c'' ptm = rtext \<and> rtext \<noteq> []
      \<and> NUL \<notin> set rtext \<and> length rtext < unat len \<and> unat len \<le> length mem \<longrightarrow>
      humanized_timestamp ndebug clock localtime_r (strftime_std render) Buf mem len
        = Inr (Arg Buf, rtext @ NUL # drop (Suc (length rtext)) mem))
   \<and> (localtime_r clock = None \<longrightarrow>
      humanized_timestamp ndebug clock localtime_r strftime str mem len
        = Inr (Static ''error'', mem))
   \<and> (localtime_r clock = Some ptm \<and> strftime str mem len ''%c'' ptm = Inr (0, left) \<longrightarrow>
      humanized_timestamp ndebug clock localtime_r strftime str mem len
        = Inr (Static ''error'', left))
   \<and> (localtime_r clock = Some ptm \<and> unat len \<le> length (render ''%c'' ptm) \<longrightarrow>
      humanized_timestamp ndebug clock localtime_r (strftime_std render) str mem len
        = Inr (Static ''error'', mem))"
proof (intro conjI impI)
  assume h: "localtime_r clock = Some ptm \<and> valid_tm ptm
      \<and> 1000 \<le> tm_year ptm + 1900 \<and> tm_year ptm + 1900 \<le> 9999
      \<and> 25 \<le> unat len \<and> unat len \<le> length mem"
  let ?s = "c_date_time ptm"
  from h have l: "length ?s = 24" and n: "NUL \<notin> set ?s"
    by (simp_all add: c_date_time_facts)
  from l have ne: "?s \<noteq> []"
    by auto
  from h l have "length ?s < unat len"
    by simp
  with h ne n
  have "humanized_timestamp ndebug clock localtime_r (strftime_std strftime_c_locale) Buf mem len
          = Inr (Arg Buf, ?s @ NUL # drop (Suc (length ?s)) mem)"
    by (intro humanized_timestamp_renders strftime_c_locale_c) simp_all
  moreover from n have "string_at (Arg Buf) (?s @ NUL # drop 25 mem) = Some ?s"
    by (simp add: c_string_append_NUL)
  moreover from h have "matches_layout timestamp_layout ?s"
    by (simp add: c_date_time_layout)
  ultimately
  show "\<exists>s. humanized_timestamp ndebug clock localtime_r (strftime_std strftime_c_locale)
              Buf mem len = Inr (Arg Buf, s @ NUL # drop 25 mem)
           \<and> string_at (Arg Buf) (s @ NUL # drop 25 mem) = Some s
           \<and> s \<noteq> [] \<and> length s = 24 \<and> matches_layout timestamp_layout s"
    using l ne by (intro exI [of _ ?s]) simp
next
  assume "localtime_r clock = Some ptm \<and> render ''%c'' ptm = rtext \<and> rtext \<noteq> []
      \<and> NUL \<notin> set rtext \<and> length rtext < unat len \<and> unat len \<le> length mem"
  then show "humanized_timestamp ndebug clock localtime_r (strftime_std render) Buf mem len
        = Inr (Arg Buf, rtext @ NUL # drop (Suc (length rtext)) mem)"
    by (intro humanized_timestamp_renders [where ptm = ptm]) simp_all
next
  assume "localtime_r clock = None"
  then show "humanized_timestamp ndebug clock localtime_r strftime str mem len
        = Inr (Static ''error'', mem)"
    by (rule humanized_timestamp_no_local_time)
next
  assume "localtime_r clock = Some ptm \<and> strftime str mem len ''%c'' ptm = Inr (0, left)"
  then show "humanized_timestamp ndebug clock localtime_r strftime str mem len
        = Inr (Static ''error'', left)"
    by (intro humanized_timestamp_zero_bytes [where ptm = ptm]) simp_all
next
  assume h: "localtime_r clock = Some ptm \<and> unat len \<le> length (render ''%c'' ptm)"
  then have "strftime_std render str mem len ''%c'' ptm = Inr (0, mem)"
    by (intro strftime_std_too_small) simp
  with h show "humanized_timestamp ndebug clock localtime_r (strftime_std render) str mem len
        = Inr (Static ''error'', mem)"
    by (intro humanized_timestamp_zero_bytes [where ptm = ptm]) simp_all
qed

lemmas time_eval_simps = humanized_timestamp_def strftime_std_def c_date_time_def wday_abbr_def
  mon_abbr_def pad2_def dec_of_int_def dec_nat.simps digit_char_def strlen_def c_string_def
  Let_def NUL_def

lemma c_date_time_feb_17_2020: "c_date_time feb_17_2020 = ''Mon Feb 17 13:22:05 2020''"
  by (simp add: time_eval_simps feb_17_2020_def)

lemma c_date_time_jan_1_10000: "c_date_time jan_1_10000 = ''Sat Jan  1 00:00:00 10000''"
  by (simp add: time_eval_simps jan_1_10000_def)

lemma long_date_time_feb_17_2020:
  "long_date_time ''GMT'' feb_17_2020 = ''Mon 17 Feb 2020 13:22:05 GMT''"
  by (simp add: long_date_time_def time_eval_simps feb_17_2020_def)

theorem humanized_timestamp_result_witness:
  "humanized_timestamp False 1581945725 (local_time_is feb_17_2020)
     (strftime_std strftime_c_locale) Buf (replicate 32 CHR ''.'') 32
     = Inr (Arg Buf, ''Mon Feb 17 13:22:05 2020'' @ NUL # replicate 7 CHR ''.'')
   \<and> matches_layout timestamp_layout ''Mon Feb 17 13:22:05 2020''
   \<and> humanized_timestamp False 1581945725 (local_time_is feb_17_2020)
       (strftime_std (strftime_long_locale ''GMT'')) Buf (replicate 32 CHR ''.'') 32
     = Inr (Arg Buf, ''Mon 17 Feb 2020 13:22:05 GMT'' @ NUL # replicate 3 CHR ''.'')
   \<and> humanized_timestamp False 1581945725 local_time_fails
       (strftime_std strftime_c_locale) Buf (replicate 32 CHR ''.'') 32
     = Inr (Static ''error'', replicate 32 CHR ''.'')
   \<and> humanized_timestamp False 1581945725 (local_time_is feb_17_2020)
       (strftime_std strftime_c_locale) Buf (replicate 24 CHR ''.'') 24
     = Inr (Static ''error'', replicate 24 CHR ''.'')"
proof -
  have v: "valid_tm feb_17_2020" and y: "tm_year feb_17_2020 + 1900 = 2020"
    by (simp_all add: valid_tm_def feb_17_2020_def)
  note r = c_date_time_feb_17_2020
  have z: "strftime_std strftime_c_locale Buf (replicate 24 CHR ''.'') 24 ''%c'' feb_17_2020
             = Inr (0, replicate 24 CHR ''.'')"
    by (simp add: strftime_std_def r)
  have g: "strftime_long_locale ''GMT'' ''%c'' feb_17_2020 = ''Mon 17 Feb 2020 13:22:05 GMT''"
    by (simp add: strftime_long_locale_def long_date_time_feb_17_2020)
  note a = humanized_timestamp_result
    [where localtime_r = "local_time_is feb_17_2020" and clock = 1581945725
       and ptm = feb_17_2020 and len = 32 and mem = "replicate 32 CHR ''.''" and ndebug = False
       and render = "strftime_long_locale ''GMT''" and rtext = "''Mon 17 Feb 2020 13:22:05 GMT''"
       and strftime = "strftime_std strftime_c_locale" and str = Buf
       and left = "replicate 32 CHR ''.''"]
  note d = humanized_timestamp_result
    [where localtime_r = "local_time_is feb_17_2020" and clock = 1581945725
       and ptm = feb_17_2020 and len = 32 and mem = "replicate 32 CHR ''.''" and ndebug = False
       and render = strftime_c_locale and rtext = "''Mon Feb 17 13:22:05 2020''"
       and strftime = "strftime_std strftime_c_locale" and str = Buf
       and left = "replicate 32 CHR ''.''"]
  note b = humanized_timestamp_result
    [where localtime_r = local_time_fails and clock = 1581945725 and ptm = feb_17_2020
       and len = 32 and mem = "replicate 32 CHR ''.''" and ndebug = False
       and render = strftime_c_locale and rtext = "''Mon Feb 17 13:22:05 2020''"
       and strftime = "strftime_std strftime_c_locale" and str = Buf
       and left = "replicate 32 CHR ''.''"]
  note c = humanized_timestamp_result
    [where localtime_r = "local_time_is feb_17_2020" and clock = 1581945725
       and ptm = feb_17_2020 and len = 24 and mem = "replicate 24 CHR ''.''" and ndebug = False
       and render = strftime_c_locale and rtext = "''Mon Feb 17 13:22:05 2020''"
       and strftime = "strftime_std strftime_c_locale" and str = Buf
       and left = "replicate 24 CHR ''.''"]
  show ?thesis
    using a b c d v y z g
    by (simp add: r NUL_def c_string_def matches_layout_def timestamp_layout_def
          local_time_is_def local_time_fails_def)
qed

text \<open>
  The claim as stated fails with a capacity of 25 bytes. Under a locale whose \<^verbatim>\<open>%c\<close> is
  longer than the one of the \<^verbatim>\<open>C\<close> locale (here the 28 characters of
  \<^verbatim>\<open>Mon 17 Feb 2020 13:22:05 GMT\<close>) the text and its terminator do not fit, and in the
  \<^verbatim>\<open>C\<close> locale a year of five digits gives 25 characters; in both cases the rendering
  returns zero bytes and the result is the literal \<^verbatim>\<open>error\<close>, not the caller's pointer.
\<close>

theorem humanized_timestamp_result_counterexample:
  "valid_tm feb_17_2020
   \<and> strftime_long_locale ''GMT'' ''%c'' feb_17_2020 = ''Mon 17 Feb 2020 13:22:05 GMT''
   \<and> humanized_timestamp False 1581945725 (local_time_is feb_17_2020)
        (strftime_std (strftime_long_locale ''GMT'')) Buf (replicate 25 CHR ''.'') 25
        = Inr (Static ''error'', replicate 25 CHR ''.'')
   \<and> valid_tm jan_1_10000
   \<and> strftime_c_locale ''%c'' jan_1_10000 = ''Sat Jan  1 00:00:00 10000''
   \<and> humanized_timestamp False 253402300800 (local_time_is jan_1_10000)
        (strftime_std strftime_c_locale) Buf (replicate 25 CHR ''.'') 25
        = Inr (Static ''error'', replicate 25 CHR ''.'')"
proof (intro conjI)
  show "valid_tm feb_17_2020"
    by (simp add: valid_tm_def feb_17_2020_def)
  show g: "strftime_long_locale ''GMT'' ''%c'' feb_17_2020 = ''Mon 17 Feb 2020 13:22:05 GMT''"
    by (simp add: strftime_long_locale_def long_date_time_feb_17_2020)
  show "humanized_timestamp False 1581945725 (local_time_is feb_17_2020)
        (strftime_std (strftime_long_locale ''GMT'')) Buf (replicate 25 CHR ''.'') 25
        = Inr (Static ''error'', replicate 25 CHR ''.'')"
    by (simp add: humanized_timestamp_def strftime_std_def local_time_is_def g)
  show "valid_tm jan_1_10000"
    by (simp add: valid_tm_def jan_1_10000_def)
  show "strftime_c_locale ''%c'' jan_1_10000 = ''Sat Jan  1 00:00:00 10000''"
    by (simp add: c_date_time_jan_1_10000)
  show "humanized_timestamp False 253402300800 (local_time_is jan_1_10000)
        (strftime_std strftime_c_locale) Buf (replicate 25 CHR ''.'') 25
        = Inr (Static ''error'', replicate 25 CHR ''.'')"
    by (simp add: humanized_timestamp_def strftime_std_def local_time_is_def
          c_date_time_jan_1_10000)
qed

section \<open>Calling twice with the same arguments\<close>

lemma vsnprintf_std_stores:
  assumes "vsnprintf_std render str mem len fmt ap = Inr (num, m1)"
  shows "\<exists>w. length w \<le> length mem \<and> m1 = w @ drop (length w) mem
           \<and> (\<forall>m. length m = length mem \<longrightarrow>
                 vsnprintf_std render str m len fmt ap = Inr (num, w @ drop (length w) m))"
proof (cases "\<exists>f rtext. fmt = Some f \<and> render f ap = Some rtext \<and> \<not> INT_MAX < length rtext \<and> len \<noteq> 0")
  case False
  with assms have "m1 = mem \<and> (\<forall>m. vsnprintf_std render str m len fmt ap = Inr (num, m))"
    by (auto simp: vsnprintf_std_def split: option.splits if_splits)
  then show ?thesis
    by (intro exI [of _ "[]"]) simp
next
  case True
  then obtain f rtext where f: "fmt = Some f" "render f ap = Some rtext"
      "\<not> INT_MAX < length rtext" "len \<noteq> 0"
    by blast
  let ?k = "min (length rtext) (unat len - 1)"
  let ?w = "take ?k rtext @ [NUL]"
  from assms f have s: "str \<noteq> Null" and b: "\<not> length mem \<le> ?k"
    and r: "num = of_nat (length rtext)" "m1 = take ?k rtext @ NUL # drop (Suc ?k) mem"
    by (auto simp: vsnprintf_std_def Let_def split: if_splits)
  have lw: "length ?w = Suc ?k"
    by simp
  have "vsnprintf_std render str m len fmt ap = Inr (num, ?w @ drop (length ?w) m)"
    if "length m = length mem" for m
  proof -
    from b that have "\<not> length m \<le> ?k"
      by simp
    with f s r(1) show ?thesis
      by (simp add: vsnprintf_std_def Let_def)
  qed
  then have "\<forall>m. length m = length mem \<longrightarrow>
          vsnprintf_std render str m len fmt ap = Inr (num, ?w @ drop (length ?w) m)"
    by blast
  moreover have "m1 = ?w @ drop (length ?w) mem"
    using r(2) by simp
  moreover have "length ?w \<le> length mem"
  proof -
    from b have "?k < length mem"
      by (simp only: not_le)
    then show ?thesis
      by (simp only: lw Suc_le_eq)
  qed
  ultimately show ?thesis
    by blast
qed

lemma restore_first_byte:
  assumes "length w \<le> length mem"
  shows "(w @ drop (length w) ((w @ drop (length w) mem)[0 := c]))[0 := c]
           = (w @ drop (length w) mem)[0 := c]"
proof (cases w)
  case Nil
  then show ?thesis by simp
next
  case (Cons a v)
  then show ?thesis by simp
qed

lemma print_to_string_again:
  assumes E: "\<And>m. length m = length mem \<Longrightarrow> E str m len fmt ap = Inr (num, w @ drop (length w) m)"
    and w: "length w \<le> length mem"
    and first: "print_to_string ndebug E str mem len fmt ap = Inr (r, left)"
  shows "print_to_string ndebug E str left len fmt ap = Inr (r, left) \<and> length left = length mem"
proof -
  let ?m = "w @ drop (length w) mem"
  have l: "length ?m = length mem"
    using w by simp
  have e0: "E str mem len fmt ap = Inr (num, ?m)"
    using E by simp
  have e1: "E str ?m len fmt ap = Inr (num, ?m)"
    using E [OF l] by simp
  have "length (?m[0 := NUL]) = length mem"
    using l by simp
  then have e2: "E str (?m[0 := NUL]) len fmt ap
                   = Inr (num, w @ drop (length w) (?m[0 := NUL]))"
    by (rule E)
  note k = restore_first_byte [OF w, of NUL]
  have ne: "?m \<noteq> [] \<Longrightarrow> w @ drop (length w) (?m[0 := NUL]) \<noteq> []"
    using w by (cases w) auto
  show ?thesis
  proof (cases "\<not> num <s 0 \<and> len \<le> scast num")
    case True
    with first e0 have "r = - 1" "left = ?m[0 := NUL]" "str \<noteq> Null" "?m \<noteq> []"
      and a: "\<not> (\<not> ndebug \<and> str = Null)" "\<not> (\<not> ndebug \<and> fmt = None)"
      by (auto simp: print_to_string_def split: if_splits)
    with True e2 k ne l show ?thesis
      by (simp add: print_to_string_def)
  next
    case False
    with first e0 have "left = ?m"
      by (auto simp: print_to_string_def split: if_splits)
    with first e0 e1 l show ?thesis
      by (auto simp: print_to_string_def split: if_splits)
  qed
qed

lemma print_to_string_std_again:
  assumes "print_to_string ndebug (vsnprintf_std render) str mem len fmt ap = Inr (r, left)"
  shows "print_to_string ndebug (vsnprintf_std render) str left len fmt ap = Inr (r, left)
           \<and> length left = length mem"
proof -
  from assms obtain num m1 where "vsnprintf_std render str mem len fmt ap = Inr (num, m1)"
    by (auto simp: print_to_string_def split: if_splits sum.splits)
  from vsnprintf_std_stores [OF this] obtain w where "length w \<le> length mem"
    and "\<And>m. length m = length mem \<Longrightarrow>
           vsnprintf_std render str m len fmt ap = Inr (num, w @ drop (length w) m)"
    by blast
  then show ?thesis
    using assms by (intro print_to_string_again [where num = num and w = w]) simp_all
qed

lemma strerror_r_xsi_stores:
  assumes "strerror_r_xsi table err str mem len = Inr (rc, h)"
  shows "(rc = 0 \<and> strerror_r_xsi table err str h len = Inr (0, h))
         \<or> (rc \<noteq> 0 \<and> h = mem
             \<and> (\<forall>m. length m = length mem \<longrightarrow> strerror_r_xsi table err str m len = Inr (rc, m)))"
proof (cases "table err")
  case None
  with assms show ?thesis
    by (simp add: strerror_r_xsi_def EINVAL_def)
next
  case (Some msg)
  show ?thesis
  proof (cases "length msg < unat len")
    case False
    with assms Some show ?thesis
      by (simp add: strerror_r_xsi_def ERANGE_def)
  next
    case True
    with assms Some have "rc = 0" "h = msg @ NUL # drop (Suc (length msg)) mem"
      "str \<noteq> Null" "\<not> length mem \<le> length msg"
      by (auto simp: strerror_r_xsi_def split: if_splits)
    with True Some show ?thesis
      by (simp add: strerror_r_xsi_def)
  qed
qed

lemma strerror_r_improved_std_again:
  assumes "strerror_r_improved ndebug (strerror_r_xsi table) (vsnprintf_std render) err str mem len
             = Inr (p, left)"
  shows "strerror_r_improved ndebug (strerror_r_xsi table) (vsnprintf_std render) err str left len
           = Inr (p, left)"
proof -
  from assms obtain rc h where h: "strerror_r_xsi table err str mem len = Inr (rc, h)"
    by (auto simp: strerror_r_improved_def Let_def split: sum.splits if_splits)
  show ?thesis
  proof (cases "rc = 0")
    case True
    with assms h have "p = Arg str" "left = h"
      by (simp_all add: strerror_r_improved_primary)
    moreover from strerror_r_xsi_stores [OF h] True
    have "strerror_r_xsi table err str h len = Inr (0, h)"
      by simp
    ultimately show ?thesis
      by (simp add: strerror_r_improved_primary)
  next
    case False
    with strerror_r_xsi_stores [OF h] have hm: "h = mem"
      and same: "\<And>m. length m = length mem \<Longrightarrow> strerror_r_xsi table err str m len = Inr (rc, m)"
      by simp_all
    from assms h hm False obtain rr where
      pr: "print_to_string ndebug (vsnprintf_std render) str mem len (Some ''%s %d'')
             [ArgStr ''unknown error'', ArgInt err] = Inr (rr, left)"
      and p: "p = (if 0 \<le>s rr then Arg str else Static ''unknown error'')"
      by (auto simp: strerror_r_improved_def Let_def split: sum.splits if_splits)
    from print_to_string_std_again [OF pr]
    have again: "print_to_string ndebug (vsnprintf_std render) str left len (Some ''%s %d'')
             [ArgStr ''unknown error'', ArgInt err] = Inr (rr, left)"
      and l: "length left = length mem"
      by simp_all
    from same [OF l] have "strerror_r_xsi table err str left len = Inr (rc, left)" .
    with False again p show ?thesis
      by (simp add: strerror_r_improved_fallback)
  qed
qed

lemma strftime_std_stores:
  assumes "strftime_std render str mem len fmt ptm = Inr (bytes, s)"
  shows "strftime_std render str s len fmt ptm = Inr (bytes, s)"
proof (cases "length (render fmt ptm) < unat len")
  case False
  with assms show ?thesis
    by (simp add: strftime_std_def)
next
  case True
  with assms have "str \<noteq> Null" "\<not> length mem \<le> length (render fmt ptm)"
    "bytes = of_nat (length (render fmt ptm))"
    "s = render fmt ptm @ NUL # drop (Suc (length (render fmt ptm))) mem"
    by (auto simp: strftime_std_def Let_def split: if_splits)
  with True show ?thesis
    by (simp add: strftime_std_def Let_def)
qed

lemma humanized_timestamp_std_again:
  assumes "humanized_timestamp ndebug clock localtime_r (strftime_std render) str mem len
             = Inr (q, left)"
  shows "humanized_timestamp ndebug clock localtime_r (strftime_std render) str left len
           = Inr (q, left)"
proof (cases "localtime_r clock")
  case None
  with assms show ?thesis
    by (simp add: humanized_timestamp_def)
next
  case (Some ptm)
  with assms obtain bytes s where
    s: "strftime_std render str mem len ''%c'' ptm = Inr (bytes, s)"
    by (auto simp: humanized_timestamp_def Let_def split: sum.splits)
  with assms Some have "left = s"
    by (auto simp: humanized_timestamp_def Let_def split: if_splits sum.splits)
  moreover from strftime_std_stores [OF s]
  have "strftime_std render str s len ''%c'' ptm = Inr (bytes, s)" .
  ultimately show ?thesis
    using assms Some s by (simp add: humanized_timestamp_def)
qed

text \<open>
  C8. With the host facilities of the specification (which are functions of their
  arguments), a second call with the same arguments on the buffer as the first call left it
  returns the same value and leaves the same bytes: this holds for \<open>print_to_string\<close>, for
  \<open>strerror_r_improved\<close> and, with the same value of \<^verbatim>\<open>time(NULL)\<close> (the same clock
  second) and the same local-time conversion, for \<open>humanized_timestamp\<close>.
\<close>

theorem repeated_call_same_result:
  "(print_to_string ndebug (vsnprintf_std render) str mem len fmt ap = Inr (r, lefta) \<longrightarrow>
      print_to_string ndebug (vsnprintf_std render) str lefta len fmt ap = Inr (r, lefta))
   \<and> (strerror_r_improved ndebug (strerror_r_xsi table) (vsnprintf_std render) err str mem len
        = Inr (p, leftb) \<longrightarrow>
      strerror_r_improved ndebug (strerror_r_xsi table) (vsnprintf_std render) err str leftb len
        = Inr (p, leftb))
   \<and> (humanized_timestamp ndebug clock localtime_r (strftime_std trender) str mem len
        = Inr (q, leftc) \<longrightarrow>
      humanized_timestamp ndebug clock localtime_r (strftime_std trender) str leftc len
        = Inr (q, leftc))"
  by (intro conjI impI)
     (simp_all add: print_to_string_std_again strerror_r_improved_std_again
        humanized_timestamp_std_again)

theorem repeated_call_same_result_witness:
  "print_to_string False (vsnprintf_std render_c) Buf (NUL # ''234'' @ [NUL, CHR ''f'']) 5
       (Some ''%d'') [ArgInt 12345]
     = Inr (- 1, NUL # ''234'' @ [NUL, CHR ''f''])
   \<and> strerror_r_improved False (strerror_r_xsi no_messages) (vsnprintf_std render_c) 9999 Buf
       (''unknown error 9999'' @ NUL # replicate 13 CHR ''.'') 32
     = Inr (Arg Buf, ''unknown error 9999'' @ NUL # replicate 13 CHR ''.'')
   \<and> humanized_timestamp False 1581945725 (local_time_is feb_17_2020)
       (strftime_std strftime_c_locale) Buf
       (''Mon Feb 17 13:22:05 2020'' @ NUL # replicate 7 CHR ''.'') 32
     = Inr (Arg Buf, ''Mon Feb 17 13:22:05 2020'' @ NUL # replicate 7 CHR ''.'')"
proof -
  have a: "print_to_string False (vsnprintf_std render_c) Buf ''abcdef'' 5
             (Some ''%d'') [ArgInt 12345]
           = Inr (- 1, NUL # ''234'' @ [NUL, CHR ''f''])"
    by (simp add: eval_simps)
  have b: "strerror_r_improved False (strerror_r_xsi no_messages) (vsnprintf_std render_c) 9999
             Buf (replicate 32 CHR ''.'') 32
           = Inr (Arg Buf, ''unknown error 9999'' @ NUL # replicate 13 CHR ''.'')"
    by (simp add: strerror_r_improved_def strerror_r_xsi_def no_messages_def EINVAL_def
          eval_simps NUL_def)
  have c: "humanized_timestamp False 1581945725 (local_time_is feb_17_2020)
             (strftime_std strftime_c_locale) Buf (replicate 32 CHR ''.'') 32
           = Inr (Arg Buf, ''Mon Feb 17 13:22:05 2020'' @ NUL # replicate 7 CHR ''.'')"
    by (simp add: humanized_timestamp_def strftime_std_def strlen_def c_string_def NUL_def
          local_time_is_def c_date_time_feb_17_2020)
  note ta = repeated_call_same_result
    [where ndebug = False and render = render_c and str = Buf and mem = "''abcdef''"
       and len = 5 and fmt = "Some ''%d''" and ap = "[ArgInt 12345]" and r = "- 1"
       and lefta = "NUL # ''234'' @ [NUL, CHR ''f'']"]
  note tb = repeated_call_same_result
    [where ndebug = False and render = render_c and str = Buf
       and mem = "replicate 32 CHR ''.''" and len = 32 and table = no_messages and err = 9999
       and p = "Arg Buf" and leftb = "''unknown error 9999'' @ NUL # replicate 13 CHR ''.''"]
  note tc = repeated_call_same_result
    [where ndebug = False and str = Buf and mem = "replicate 32 CHR ''.''" and len = 32
       and clock = 1581945725 and localtime_r = "local_time_is feb_17_2020"
       and trender = strftime_c_locale and q = "Arg Buf"
       and leftc = "''Mon Feb 17 13:22:05 2020'' @ NUL # replicate 7 CHR ''.''"]
  from ta a have "print_to_string False (vsnprintf_std render_c) Buf
       (NUL # ''234'' @ [NUL, CHR ''f'']) 5 (Some ''%d'') [ArgInt 12345]
     = Inr (- 1, NUL # ''234'' @ [NUL, CHR ''f''])"
    by blast
  moreover from tb b have "strerror_r_improved False (strerror_r_xsi no_messages)
       (vsnprintf_std render_c) 9999 Buf
       (''unknown error 9999'' @ NUL # replicate 13 CHR ''.'') 32
     = Inr (Arg Buf, ''unknown error 9999'' @ NUL # replicate 13 CHR ''.'')"
    by blast
  moreover from tc c have "humanized_timestamp False 1581945725 (local_time_is feb_17_2020)
       (strftime_std strftime_c_locale) Buf
       (''Mon Feb 17 13:22:05 2020'' @ NUL # replicate 7 CHR ''.'') 32
     = Inr (Arg Buf, ''Mon Feb 17 13:22:05 2020'' @ NUL # replicate 7 CHR ''.'')"
    by blast
  ultimately show ?thesis
    by blast
qed

end
